theory Spec2Isabelle
  imports Main
begin

section \<open>Data model\<close>

text \<open>
  The transaction engine of StitchDB (the \<^verbatim>\<open>package main\<close> file that declares
  \<^verbatim>\<open>RbCtx\<close>, \<^verbatim>\<open>Tx\<close> and the methods of \<^verbatim>\<open>*Tx\<close>).  A transaction holds
  pointers to the database, to one bucket and to its rollback context; while the
  transaction runs these objects are reached through the transaction only, so the model
  stores them by value inside the transaction record and every method returns the
  updated transaction.  Entries and indexes are pointers in the source as well; no method
  of \<^verbatim>\<open>*Tx\<close> writes through an entry pointer, and an \<^verbatim>\<open>*Index\<close> is never held by the
  registry and by the rollback context at once, so both are stored by value.  The file
  \<^verbatim>\<open>tx.go\<close> of the repository is an earlier skeleton of the same type, its methods
  without bodies; the model follows the implemented methods.
\<close>

text \<open>
  Modelled from the spec: the declaration of \<^verbatim>\<open>Entry\<close> is missing.  The source only shows
  its key field \<^verbatim>\<open>k\<close> (in \<^verbatim>\<open>&Entry{k: key}\<close>); the value, the optional expiration and the
  validity flag are the fields the spec lists.
\<close>

record Entry =
  k :: string
  val :: string
  expiresAt :: "nat option"
  valid :: bool

text \<open>\<^verbatim>\<open>&Entry{k: key}\<close>: an entry that carries a key and Go's zero values elsewhere.\<close>

definition key_entry :: "string \<Rightarrow> Entry" where
  "key_entry key = \<lparr>k = key, val = [], expiresAt = None, valid = False\<rparr>"

text \<open>
  Modelled from the spec: the methods \<^verbatim>\<open>IsExpired\<close> and \<^verbatim>\<open>IsInvalid\<close> of \<^verbatim>\<open>Entry\<close> are
  missing.  An entry is expired when it has an expiration that lies in the past of the
  clock reading \<open>now\<close>; it is invalid when its validity flag is off.
\<close>

definition IsExpired :: "nat \<Rightarrow> Entry \<Rightarrow> bool" where
  "IsExpired now e = (case expiresAt e of None \<Rightarrow> False | Some ts \<Rightarrow> ts < now)"

definition IsInvalid :: "Entry \<Rightarrow> bool" where
  "IsInvalid e = (if valid e then False else True)"

text \<open>
  Modelled from the spec: the declaration of \<^verbatim>\<open>Index\<close> is missing.  The source shows its
  tree \<^verbatim>\<open>t\<close>, on which rollback calls \<^verbatim>\<open>Delete\<close> and \<^verbatim>\<open>ReplaceOrInsert\<close>.  The tree is
  modelled by its content, the entry held for each entry key; the order in which the tree
  is walked is not modelled.
\<close>

record Index =
  pattern :: string
  t :: "string \<rightharpoonup> Entry"

definition tree_Delete :: "Entry \<Rightarrow> Index \<Rightarrow> Index" where
  "tree_Delete e ind = ind\<lparr>t := (t ind)(k e := None)\<rparr>"

definition tree_ReplaceOrInsert :: "Entry \<Rightarrow> Index \<Rightarrow> Index" where
  "tree_ReplaceOrInsert e ind = ind\<lparr>t := (t ind)(k e \<mapsto> e)\<rparr>"

text \<open>
  Modelled from the spec: the declaration of \<^verbatim>\<open>RWMode\<close> is missing.  The source compares
  the mode with the constants \<^verbatim>\<open>MODE_READ\<close> and \<^verbatim>\<open>MODE_READ_WRITE\<close>; the spec has these
  two modes and no other.
\<close>

datatype RWMode = MODE_READ | MODE_READ_WRITE

text \<open>
  A call either returns or stops the process: Go panics on a nil pointer, and the
  runtime aborts when a \<^verbatim>\<open>sync.RWMutex\<close> is unlocked that is not locked.
\<close>

datatype 'a outcome = Panic | Return 'a

text \<open>
  \<^verbatim>\<open>sync.RWMutex\<close> of the Go standard library, by the holders it has: the number of
  readers and whether a writer holds it.
\<close>

record RWMutex =
  readers :: nat
  writer :: bool

definition RUnlock :: "RWMutex \<Rightarrow> RWMutex outcome" where
  "RUnlock m = (if readers m = 0 then Panic else Return (m\<lparr>readers := readers m - 1\<rparr>))"

definition Unlock :: "RWMutex \<Rightarrow> RWMutex outcome" where
  "Unlock m = (if writer m then Return (m\<lparr>writer := False\<rparr>) else Panic)"

datatype LogRecord = InsertRec Entry | DeleteRec string

text \<open>
  Modelled from the spec: the declaration of \<^verbatim>\<open>Bucket\<close> is missing.  The source reads its
  fields \<^verbatim>\<open>open\<close>, \<^verbatim>\<open>data\<close> (the primary index), \<^verbatim>\<open>indexes\<close> (the registry of secondary
  indexes) and \<^verbatim>\<open>bktlock\<close>; \<open>aofbuf\<close> is the pending buffer of the durability log and
  \<open>aof\<close> the records flushed to it.  The registry never holds a nil index: the two
  methods that write it store a fresh index or delete the name.
\<close>

record Bucket =
  bkt_open :: bool
  data :: "string \<rightharpoonup> Entry"
  indexes :: "string \<rightharpoonup> Index"
  bktlock :: RWMutex
  aofbuf :: "LogRecord list"
  aof :: "LogRecord list"

text \<open>
  Modelled from the spec: the methods \<^verbatim>\<open>insert\<close>, \<^verbatim>\<open>delete\<close> and \<^verbatim>\<open>get\<close> of \<^verbatim>\<open>Bucket\<close>
  are missing.  \<^verbatim>\<open>insert\<close> replaces or inserts the entry under its key and returns the
  entry that occupied the key before (or nil); \<^verbatim>\<open>delete\<close> removes the key and returns
  the removed entry (or nil); \<^verbatim>\<open>get\<close> looks the key up.
\<close>

definition insert_bkt :: "Entry \<Rightarrow> Bucket \<Rightarrow> Entry option \<times> Bucket" where
  "insert_bkt e b = (data b (k e), b\<lparr>data := (data b)(k e \<mapsto> e)\<rparr>)"

definition delete_bkt :: "Entry \<Rightarrow> Bucket \<Rightarrow> Entry option \<times> Bucket" where
  "delete_bkt e b = (data b (k e), b\<lparr>data := (data b)(k e := None)\<rparr>)"

definition get_bkt :: "Entry \<Rightarrow> Bucket \<Rightarrow> Entry option" where
  "get_bkt e b = data b (k e)"

text \<open>
  Modelled from the spec: the methods \<^verbatim>\<open>WriteInsertEntry\<close>, \<^verbatim>\<open>WriteDeleteEntry\<close> and
  \<^verbatim>\<open>WriteAOFBuf\<close> of \<^verbatim>\<open>Bucket\<close> are missing.  The first two append an insert or a delete
  record to the pending buffer; the third flushes the buffer to the log.  The source
  ignores whatever they return.
\<close>

definition WriteInsertEntry :: "Entry \<Rightarrow> Bucket \<Rightarrow> Bucket" where
  "WriteInsertEntry e b = b\<lparr>aofbuf := aofbuf b @ [InsertRec e]\<rparr>"

definition WriteDeleteEntry :: "Entry \<Rightarrow> Bucket \<Rightarrow> Bucket" where
  "WriteDeleteEntry e b = b\<lparr>aofbuf := aofbuf b @ [DeleteRec (k e)]\<rparr>"

definition WriteAOFBuf :: "Bucket \<Rightarrow> Bucket" where
  "WriteAOFBuf b = b\<lparr>aof := aof b @ aofbuf b, aofbuf := []\<rparr>"

text \<open>
  Modelled from the spec: \<^verbatim>\<open>NewIndex\<close> and the method \<^verbatim>\<open>build\<close> of \<^verbatim>\<open>Index\<close> are missing.
  \<open>accepts\<close> says for which patterns \<^verbatim>\<open>NewIndex\<close> returns an index rather than an error;
  \<open>extracts p e\<close> says that the field the pattern \<open>p\<close> extracts is defined on \<open>e\<close>.  A new
  index is empty; after \<^verbatim>\<open>build\<close> it holds the entries of the primary index on which the
  extracted field is defined.
\<close>

definition NewIndex :: "(string \<Rightarrow> bool) \<Rightarrow> string \<Rightarrow> Bucket \<Rightarrow> Index option" where
  "NewIndex accepts p b = (if accepts p then Some \<lparr>pattern = p, t = Map.empty\<rparr> else None)"

definition build :: "(string \<Rightarrow> Entry \<Rightarrow> bool) \<Rightarrow> Bucket \<Rightarrow> Index \<Rightarrow> Index" where
  "build extracts b ind =
     ind\<lparr>t := (\<lambda>key. case data b key of
                        None \<Rightarrow> None
                      | Some e \<Rightarrow> if extracts (pattern ind) e then Some e else None)\<rparr>"

text \<open>
  Modelled from the spec: the declaration of \<^verbatim>\<open>StitchDB\<close> is missing.  A transaction
  reads one field of the database, \<^verbatim>\<open>t.db.open\<close>.
\<close>

record StitchDB =
  db_open :: bool

text \<open>
  \<^verbatim>\<open>map[string]*Entry\<close> and \<^verbatim>\<open>map[string]*Index\<close>: a key of the map is bound to a pointer
  that may be nil, so a bound key has the value \<open>Some None\<close> (nil) or \<open>Some (Some x)\<close>.
\<close>

record RbCtx =
  backward :: "string \<rightharpoonup> Entry option"
  forward :: "string \<rightharpoonup> Entry option"
  backwardIndex :: "string \<rightharpoonup> Index option"

record Tx =
  db :: StitchDB
  bkt :: "Bucket option"
  mode :: RWMode
  rbctx :: RbCtx

section \<open>The methods of a transaction\<close>

definition NewTx :: "StitchDB \<Rightarrow> Bucket option \<Rightarrow> RWMode \<Rightarrow> Tx" where
  "NewTx d b m =
     \<lparr>db = d, bkt = b, mode = m,
      rbctx = \<lparr>backward = Map.empty, forward = Map.empty, backwardIndex = Map.empty\<rparr>\<rparr>"

definition unlock :: "Tx \<Rightarrow> Tx outcome" where
  "unlock tx =
     (case bkt tx of
        None \<Rightarrow> Panic
      | Some b \<Rightarrow>
          (case mode tx of
             MODE_READ \<Rightarrow>
               (case RUnlock (bktlock b) of
                  Panic \<Rightarrow> Panic
                | Return m \<Rightarrow> Return (tx\<lparr>bkt := Some (b\<lparr>bktlock := m\<rparr>)\<rparr>))
           | MODE_READ_WRITE \<Rightarrow>
               (case Unlock (bktlock b) of
                  Panic \<Rightarrow> Panic
                | Return m \<Rightarrow> Return (tx\<lparr>bkt := Some (b\<lparr>bktlock := m\<rparr>)\<rparr>))))"

text \<open>
  The body of the loop of \<^verbatim>\<open>RollbackTx\<close> for one key of the backward map and the pointer
  bound to it: nil deletes the key from the primary index and from the tree of every
  registered index, an entry is put back into both.  (A key that the map does not bind is
  never enumerated; the step leaves the bucket as it is.)
\<close>

definition rollback_step :: "string \<Rightarrow> Entry option option \<Rightarrow> Bucket \<Rightarrow> Bucket" where
  "rollback_step key bound b =
     (case bound of
        None \<Rightarrow> b
      | Some None \<Rightarrow>
          (let b1 = snd (delete_bkt (key_entry key) b)
           in b1\<lparr>indexes := (\<lambda>n. map_option (tree_Delete (key_entry key)) (indexes b1 n))\<rparr>)
      | Some (Some entry) \<Rightarrow>
          (let b1 = snd (insert_bkt entry b)
           in b1\<lparr>indexes := (\<lambda>n. map_option (tree_ReplaceOrInsert entry) (indexes b1 n))\<rparr>))"

text \<open>
  \<^verbatim>\<open>for key, entry := range m\<close>: Go enumerates the keys of a map in an order of its own
  choice; \<open>ks\<close> is that order.
\<close>

fun rollback_loop :: "string list \<Rightarrow> (string \<rightharpoonup> Entry option) \<Rightarrow> Bucket \<Rightarrow> Bucket" where
  "rollback_loop [] bw b = b"
| "rollback_loop (key # ks) bw b = rollback_loop ks bw (rollback_step key (bw key) b)"

definition RollbackTx :: "string list \<Rightarrow> Tx \<Rightarrow> (string option \<times> Tx) outcome" where
  "RollbackTx ks tx =
     (case bkt tx of
        None \<Rightarrow> Panic
      | Some b \<Rightarrow>
          (case unlock (tx\<lparr>bkt := Some (rollback_loop ks (backward (rbctx tx)) b)\<rparr>) of
             Panic \<Rightarrow> Panic
           | Return tx' \<Rightarrow> Return (None, tx')))"

definition commit_step :: "string \<Rightarrow> Entry option option \<Rightarrow> Bucket \<Rightarrow> Bucket" where
  "commit_step key bound b =
     (case bound of
        None \<Rightarrow> b
      | Some None \<Rightarrow> WriteDeleteEntry (key_entry key) b
      | Some (Some entry) \<Rightarrow> WriteInsertEntry entry b)"

fun commit_loop :: "string list \<Rightarrow> (string \<rightharpoonup> Entry option) \<Rightarrow> Bucket \<Rightarrow> Bucket" where
  "commit_loop [] fw b = b"
| "commit_loop (key # ks) fw b = commit_loop ks fw (commit_step key (fw key) b)"

definition CommitTx :: "string list \<Rightarrow> Tx \<Rightarrow> (string option \<times> Tx) outcome" where
  "CommitTx ks tx =
     (if db_open (db tx) then
        (case mode tx of
           MODE_READ \<Rightarrow> Return (Some ''error: cannot commit read only transaction'', tx)
         | MODE_READ_WRITE \<Rightarrow>
             (case bkt tx of
                None \<Rightarrow> Panic
              | Some b \<Rightarrow>
                  (case unlock (tx\<lparr>bkt := Some (WriteAOFBuf
                                   (commit_loop ks (forward (rbctx tx)) b))\<rparr>) of
                     Panic \<Rightarrow> Panic
                   | Return tx' \<Rightarrow> Return (None, tx'))))
      else Return (Some ''error: db is closed'', tx))"

definition Get :: "nat \<Rightarrow> Entry \<Rightarrow> Tx \<Rightarrow> (string + Entry option) \<times> Tx" where
  "Get now e tx =
     (if db_open (db tx) then
        (case bkt tx of
           None \<Rightarrow> (Inl ''error: cannot get entry; db is in invalid state'', tx)
         | Some b \<Rightarrow>
             if bkt_open b then
               (case get_bkt e b of
                  None \<Rightarrow> (Inr None, tx)
                | Some res \<Rightarrow>
                    if IsExpired now res then (Inr None, tx)
                    else if IsInvalid res then (Inr None, tx)
                    else (Inr (Some res), tx))
             else (Inl ''error: cannot get entry; db is in invalid state'', tx))
      else (Inl ''error: cannot get entry; db is in invalid state'', tx))"

definition Set :: "Entry \<Rightarrow> Tx \<Rightarrow> (string + Entry option) \<times> Tx" where
  "Set e tx =
     (if db_open (db tx) then
        (case bkt tx of
           None \<Rightarrow> (Inl ''error: cannot set entry; db is in invalid state'', tx)
         | Some b \<Rightarrow>
             if bkt_open b then
               (let (pres, b') = insert_bkt e b;
                    c = rbctx tx
                in (Inr pres,
                    tx\<lparr>bkt := Some b',
                       rbctx := c\<lparr>backward := (backward c)(k e \<mapsto> pres),
                                  forward := (forward c)(k e \<mapsto> Some e)\<rparr>\<rparr>))
             else (Inl ''error: cannot set entry; db is in invalid state'', tx))
      else (Inl ''error: cannot set entry; db is in invalid state'', tx))"

definition Delete :: "Entry \<Rightarrow> Tx \<Rightarrow> (string + Entry option) \<times> Tx" where
  "Delete e tx =
     (if db_open (db tx) then
        (case bkt tx of
           None \<Rightarrow> (Inl ''error: cannot delete entry; db is in invalid state'', tx)
         | Some b \<Rightarrow>
             if bkt_open b then
               (let (dres, b') = delete_bkt e b;
                    c = rbctx tx
                in case dres of
                     None \<Rightarrow> (Inr None, tx\<lparr>bkt := Some b'\<rparr>)
                   | Some d \<Rightarrow>
                       (Inr (Some d),
                        tx\<lparr>bkt := Some b',
                           rbctx := c\<lparr>backward := (backward c)(k e \<mapsto> Some d),
                                      forward := (forward c)(k e \<mapsto> None)\<rparr>\<rparr>))
             else (Inl ''error: cannot delete entry; db is in invalid state'', tx))
      else (Inl ''error: cannot delete entry; db is in invalid state'', tx))"

definition CreateIndex ::
  "(string \<Rightarrow> bool) \<Rightarrow> (string \<Rightarrow> Entry \<Rightarrow> bool) \<Rightarrow> string \<Rightarrow> Tx \<Rightarrow> string option \<times> Tx" where
  "CreateIndex accepts extracts p tx =
     (if db_open (db tx) then
        (case bkt tx of
           None \<Rightarrow> (Some ''error: cannot create index; db is in invalid state'', tx)
         | Some b \<Rightarrow>
             if bkt_open b then
               (case indexes b p of
                  Some present \<Rightarrow> (Some ''error: cannot create index; index already exists'', tx)
                | None \<Rightarrow>
                    (case NewIndex accepts p b of
                       None \<Rightarrow> (Some ''error: could not create index'', tx)
                     | Some index \<Rightarrow>
                         (let c = rbctx tx
                          in (None,
                              tx\<lparr>bkt := Some (b\<lparr>indexes :=
                                                  (indexes b)(p \<mapsto> build extracts b index)\<rparr>),
                                 rbctx := c\<lparr>backwardIndex := (backwardIndex c)(p \<mapsto> None)\<rparr>\<rparr>))))
             else (Some ''error: cannot create index; db is in invalid state'', tx))
      else (Some ''error: cannot create index; db is in invalid state'', tx))"

definition DropIndex :: "string \<Rightarrow> Tx \<Rightarrow> string option \<times> Tx" where
  "DropIndex p tx =
     (if db_open (db tx) then
        (case bkt tx of
           None \<Rightarrow> (Some ''error: cannot drop index; db is in invalid state'', tx)
         | Some b \<Rightarrow>
             if bkt_open b then
               (case indexes b p of
                  None \<Rightarrow> (Some ''error: cannot drop; index does not exist'', tx)
                | Some index \<Rightarrow>
                    (let c = rbctx tx
                     in (None,
                         tx\<lparr>bkt := Some (b\<lparr>indexes := (indexes b)(p := None)\<rparr>),
                            rbctx := c\<lparr>backwardIndex :=
                                         (backwardIndex c)(p \<mapsto> Some index)\<rparr>\<rparr>)))
             else (Some ''error: cannot drop index; db is in invalid state'', tx))
      else (Some ''error: cannot drop index; db is in invalid state'', tx))"

section \<open>Sequences of writes and the states they start from\<close>

text \<open>
  A caller's sequence of \<^verbatim>\<open>Set\<close> and \<^verbatim>\<open>Delete\<close> calls on one transaction, the values the
  calls return being dropped.
\<close>

datatype Op = OpSet Entry | OpDelete Entry

fun op_key :: "Op \<Rightarrow> string" where
  "op_key (OpSet e) = k e"
| "op_key (OpDelete e) = k e"

fun apply_op :: "Op \<Rightarrow> Tx \<Rightarrow> Tx" where
  "apply_op (OpSet e) tx = snd (Set e tx)"
| "apply_op (OpDelete e) tx = snd (Delete e tx)"

fun run_ops :: "Op list \<Rightarrow> Tx \<Rightarrow> Tx" where
  "run_ops [] tx = tx"
| "run_ops (x # xs) tx = run_ops xs (apply_op x tx)"

text \<open>The last call of the sequence that names the key, if any.\<close>

fun last_op :: "string \<Rightarrow> Op list \<Rightarrow> Op option" where
  "last_op key [] = None"
| "last_op key (x # xs) =
     (case last_op key xs of
        Some y \<Rightarrow> Some y
      | None \<Rightarrow> if op_key x = key then Some x else None)"

text \<open>Some call of the sequence is a \<^verbatim>\<open>Set\<close> of the key.\<close>

fun sets_key :: "string \<Rightarrow> Op list \<Rightarrow> bool" where
  "sets_key key [] = False"
| "sets_key key (OpSet e # xs) = (if k e = key then True else sets_key key xs)"
| "sets_key key (OpDelete e # xs) = sets_key key xs"

text \<open>
  \<open>ks\<close> is an order in which Go may enumerate the keys of the map \<open>m\<close>: every bound key,
  once.
\<close>

definition enumerates :: "string list \<Rightarrow> (string \<rightharpoonup> 'a) \<Rightarrow> bool" where
  "enumerates ks m = (distinct ks \<and> set ks = dom m)"

text \<open>The key a log record is about.\<close>

fun rec_key :: "LogRecord \<Rightarrow> string" where
  "rec_key (InsertRec e) = k e"
| "rec_key (DeleteRec key) = key"

text \<open>
  The records that the loop of \<^verbatim>\<open>CommitTx\<close> appends to the pending buffer, in the order
  \<open>ks\<close> of the enumeration.
\<close>

fun commit_records :: "string list \<Rightarrow> (string \<rightharpoonup> Entry option) \<Rightarrow> LogRecord list" where
  "commit_records [] fw = []"
| "commit_records (key # ks) fw =
     (case fw key of
        None \<Rightarrow> []
      | Some None \<Rightarrow> [DeleteRec key]
      | Some (Some e) \<Rightarrow> [InsertRec e]) @ commit_records ks fw"

text \<open>Concrete entries, locks, buckets and transactions for the examples.\<close>

definition entry :: "string \<Rightarrow> string \<Rightarrow> Entry" where
  "entry key value = \<lparr>k = key, val = value, expiresAt = None, valid = True\<rparr>"

definition write_locked :: RWMutex where
  "write_locked = \<lparr>readers = 0, writer = True\<rparr>"

definition read_locked :: RWMutex where
  "read_locked = \<lparr>readers = 1, writer = False\<rparr>"

definition unlocked :: RWMutex where
  "unlocked = \<lparr>readers = 0, writer = False\<rparr>"

definition empty_bucket :: "RWMutex \<Rightarrow> Bucket" where
  "empty_bucket m =
     \<lparr>bkt_open = True, data = Map.empty, indexes = Map.empty, bktlock = m,
      aofbuf = [], aof = []\<rparr>"

definition open_db :: StitchDB where
  "open_db = \<lparr>db_open = True\<rparr>"

text \<open>A transaction as \<^verbatim>\<open>NewTx\<close> makes it, on the open database, with its lock taken.\<close>

definition begin_tx :: "RWMode \<Rightarrow> (string \<rightharpoonup> Entry) \<Rightarrow> Tx" where
  "begin_tx m d =
     NewTx open_db
       (Some ((empty_bucket (case m of MODE_READ \<Rightarrow> read_locked
                                     | MODE_READ_WRITE \<Rightarrow> write_locked))\<lparr>data := d\<rparr>)) m"

text \<open>What a call left behind: the bucket of the transaction it returned.\<close>

definition bucket_after :: "('r \<times> Tx) outcome \<Rightarrow> Bucket option" where
  "bucket_after r = (case r of Panic \<Rightarrow> None | Return (res, tx) \<Rightarrow> bkt tx)"

section \<open>Reads\<close>

text \<open>
  C8.  When the entry that the primary index holds for the key is expired or marked
  invalid, \<^verbatim>\<open>Get\<close> returns no entry (and no error) instead of the stale entry, although
  the entry is still in the primary index; the transaction, its bucket and so the
  primary index are what they were.  (On a closed database or bucket the call returns
  its error and no entry.)
\<close>

theorem C8_get_hides_stale_entry:
  assumes "bkt tx = Some b" and "data b (k e) = Some res"
    and "IsExpired now res \<or> IsInvalid res"
  shows "Get now e tx =
           (if db_open (db tx) \<and> bkt_open b then Inr None
            else Inl ''error: cannot get entry; db is in invalid state'', tx)"
  using assms by (auto simp add: Get_def get_bkt_def)

theorem C8_get_hides_stale_entry_witness:
  "IsExpired 10 ((entry ''a'' ''1'')\<lparr>expiresAt := Some 5\<rparr>) \<and>
   Get 10 (key_entry ''a'')
     (begin_tx MODE_READ [''a'' \<mapsto> (entry ''a'' ''1'')\<lparr>expiresAt := Some 5\<rparr>]) =
   (Inr None, begin_tx MODE_READ [''a'' \<mapsto> (entry ''a'' ''1'')\<lparr>expiresAt := Some 5\<rparr>])"
  using C8_get_hides_stale_entry
    [of "begin_tx MODE_READ [''a'' \<mapsto> (entry ''a'' ''1'')\<lparr>expiresAt := Some 5\<rparr>]"
        "(empty_bucket read_locked)\<lparr>data := [''a'' \<mapsto> (entry ''a'' ''1'')\<lparr>expiresAt := Some 5\<rparr>]\<rparr>"
        "key_entry ''a''" "(entry ''a'' ''1'')\<lparr>expiresAt := Some 5\<rparr>" 10]
  by (simp add: begin_tx_def NewTx_def key_entry_def entry_def IsExpired_def open_db_def
      empty_bucket_def)

section \<open>Writes\<close>

text \<open>
  C9.  When the primary index has no entry for the key, \<^verbatim>\<open>Delete\<close> returns no removed
  entry and leaves the whole transaction as it was, so the backward and the forward map
  are unchanged.  (On a closed database or bucket the call returns its error, and the
  transaction is unchanged as well.)
\<close>

theorem C9_delete_of_absent_key:
  assumes "bkt tx = Some b" and "data b (k e) = None"
  shows "Delete e tx =
           (if db_open (db tx) \<and> bkt_open b then Inr None
            else Inl ''error: cannot delete entry; db is in invalid state'', tx)"
proof -
  have "(data b)(k e := None) = data b"
    using assms(2) by (simp add: fun_upd_idem)
  then have "b\<lparr>data := (data b)(k e := None)\<rparr> = b"
    by simp
  then show ?thesis
    using assms by (simp add: Delete_def delete_bkt_def)
qed

theorem C9_delete_of_absent_key_witness:
  "Delete (key_entry ''b'') (begin_tx MODE_READ_WRITE [''a'' \<mapsto> entry ''a'' ''1'']) =
   (Inr None, begin_tx MODE_READ_WRITE [''a'' \<mapsto> entry ''a'' ''1''])"
  using C9_delete_of_absent_key
    [of "begin_tx MODE_READ_WRITE [''a'' \<mapsto> entry ''a'' ''1'']"
        "(empty_bucket write_locked)\<lparr>data := [''a'' \<mapsto> entry ''a'' ''1'']\<rparr>"
        "key_entry ''b''"]
  by (simp add: begin_tx_def NewTx_def key_entry_def open_db_def empty_bucket_def)

text \<open>
  C10.  \<^verbatim>\<open>Set\<close>, \<^verbatim>\<open>Delete\<close>, \<^verbatim>\<open>CreateIndex\<close> and \<^verbatim>\<open>DropIndex\<close> never look at the mode of
  the transaction.  On a read-only transaction with the database and the bucket open,
  \<^verbatim>\<open>Set\<close> and \<^verbatim>\<open>Delete\<close> return without error and write the primary index,
  \<^verbatim>\<open>CreateIndex\<close> of a free, accepted pattern and \<^verbatim>\<open>DropIndex\<close> of a registered one
  return no error and write the registry; and each of the four does on the read-write
  twin of the transaction exactly what it does on the read-only one.
\<close>

theorem C10_writes_ignore_the_mode:
  assumes "db_open (db tx)" and "bkt tx = Some b" and "bkt_open b" and "mode tx = MODE_READ"
  shows "fst (Set e tx) = Inr (data b (k e)) \<and>
         map_option data (bkt (snd (Set e tx))) = Some ((data b)(k e \<mapsto> e)) \<and>
         fst (Delete e tx) = Inr (data b (k e)) \<and>
         map_option data (bkt (snd (Delete e tx))) = Some ((data b)(k e := None)) \<and>
         (indexes b p = None \<and> accepts p \<longrightarrow>
            fst (CreateIndex accepts extracts p tx) = None \<and>
            map_option indexes (bkt (snd (CreateIndex accepts extracts p tx))) =
              Some ((indexes b)(p \<mapsto> build extracts b \<lparr>pattern = p, t = Map.empty\<rparr>))) \<and>
         (indexes b q = Some ind \<longrightarrow>
            fst (DropIndex q tx) = None \<and>
            map_option indexes (bkt (snd (DropIndex q tx))) = Some ((indexes b)(q := None))) \<and>
         Set e (tx\<lparr>mode := MODE_READ_WRITE\<rparr>) =
           (fst (Set e tx), (snd (Set e tx))\<lparr>mode := MODE_READ_WRITE\<rparr>) \<and>
         Delete e (tx\<lparr>mode := MODE_READ_WRITE\<rparr>) =
           (fst (Delete e tx), (snd (Delete e tx))\<lparr>mode := MODE_READ_WRITE\<rparr>) \<and>
         CreateIndex accepts extracts p (tx\<lparr>mode := MODE_READ_WRITE\<rparr>) =
           (fst (CreateIndex accepts extracts p tx),
            (snd (CreateIndex accepts extracts p tx))\<lparr>mode := MODE_READ_WRITE\<rparr>) \<and>
         DropIndex q (tx\<lparr>mode := MODE_READ_WRITE\<rparr>) =
           (fst (DropIndex q tx), (snd (DropIndex q tx))\<lparr>mode := MODE_READ_WRITE\<rparr>)"
proof -
  have s: "fst (Set e tx) = Inr (data b (k e)) \<and>
         map_option data (bkt (snd (Set e tx))) = Some ((data b)(k e \<mapsto> e))"
    using assms by (simp add: Set_def insert_bkt_def Let_def)
  have d: "fst (Delete e tx) = Inr (data b (k e)) \<and>
         map_option data (bkt (snd (Delete e tx))) = Some ((data b)(k e := None))"
    using assms by (simp add: Delete_def delete_bkt_def Let_def split: option.splits)
  have c: "indexes b p = None \<and> accepts p \<longrightarrow>
            fst (CreateIndex accepts extracts p tx) = None \<and>
            map_option indexes (bkt (snd (CreateIndex accepts extracts p tx))) =
              Some ((indexes b)(p \<mapsto> build extracts b \<lparr>pattern = p, t = Map.empty\<rparr>))"
    using assms by (simp add: CreateIndex_def NewIndex_def Let_def)
  have r: "indexes b q = Some ind \<longrightarrow>
            fst (DropIndex q tx) = None \<and>
            map_option indexes (bkt (snd (DropIndex q tx))) = Some ((indexes b)(q := None))"
    using assms by (simp add: DropIndex_def Let_def)
  have s': "Set e (tx\<lparr>mode := MODE_READ_WRITE\<rparr>) =
           (fst (Set e tx), (snd (Set e tx))\<lparr>mode := MODE_READ_WRITE\<rparr>)"
    by (simp add: Set_def insert_bkt_def Let_def split: option.splits)
  have d': "Delete e (tx\<lparr>mode := MODE_READ_WRITE\<rparr>) =
           (fst (Delete e tx), (snd (Delete e tx))\<lparr>mode := MODE_READ_WRITE\<rparr>)"
    by (simp add: Delete_def delete_bkt_def Let_def split: option.splits)
  have c': "CreateIndex accepts extracts p (tx\<lparr>mode := MODE_READ_WRITE\<rparr>) =
           (fst (CreateIndex accepts extracts p tx),
            (snd (CreateIndex accepts extracts p tx))\<lparr>mode := MODE_READ_WRITE\<rparr>)"
    by (simp add: CreateIndex_def Let_def split: option.splits)
  have r': "DropIndex q (tx\<lparr>mode := MODE_READ_WRITE\<rparr>) =
           (fst (DropIndex q tx), (snd (DropIndex q tx))\<lparr>mode := MODE_READ_WRITE\<rparr>)"
    by (simp add: DropIndex_def Let_def split: option.splits)
  from s d c r s' d' c' r' show ?thesis by blast
qed

theorem C10_writes_ignore_the_mode_witness:
  "mode (begin_tx MODE_READ [''a'' \<mapsto> entry ''a'' ''1'']) = MODE_READ \<and>
   fst (Set (entry ''a'' ''2'') (begin_tx MODE_READ [''a'' \<mapsto> entry ''a'' ''1''])) =
     Inr (Some (entry ''a'' ''1'')) \<and>
   map_option data (bkt (snd (Set (entry ''a'' ''2'')
       (begin_tx MODE_READ [''a'' \<mapsto> entry ''a'' ''1''])))) =
     Some [''a'' \<mapsto> entry ''a'' ''2''] \<and>
   fst (Delete (key_entry ''a'') (begin_tx MODE_READ [''a'' \<mapsto> entry ''a'' ''1''])) =
     Inr (Some (entry ''a'' ''1'')) \<and>
   map_option data (bkt (snd (Delete (key_entry ''a'')
       (begin_tx MODE_READ [''a'' \<mapsto> entry ''a'' ''1''])))) = Some Map.empty \<and>
   fst (CreateIndex (\<lambda>p. True) (\<lambda>p e. True) ''x''
       (begin_tx MODE_READ [''a'' \<mapsto> entry ''a'' ''1''])) = None \<and>
   map_option indexes (bkt (snd (CreateIndex (\<lambda>p. True) (\<lambda>p e. True) ''x''
       (begin_tx MODE_READ [''a'' \<mapsto> entry ''a'' ''1''])))) =
     Some [''x'' \<mapsto> \<lparr>pattern = ''x'', t = [''a'' \<mapsto> entry ''a'' ''1'']\<rparr>]"
proof -
  let ?d = "[''a'' \<mapsto> entry ''a'' ''1'']"
  let ?tx = "begin_tx MODE_READ ?d"
  let ?b = "(empty_bucket read_locked)\<lparr>data := ?d\<rparr>"
  have h1: "db_open (db ?tx)"
    by (simp add: begin_tx_def NewTx_def open_db_def)
  have h2: "bkt ?tx = Some ?b"
    by (simp add: begin_tx_def NewTx_def)
  have h3: "bkt_open ?b"
    by (simp add: empty_bucket_def)
  have h4: "mode ?tx = MODE_READ"
    by (simp add: begin_tx_def NewTx_def)
  have free: "indexes ?b ''x'' = None"
    by (simp add: empty_bucket_def)
  have built: "build (\<lambda>p e. True) ?b \<lparr>pattern = ''x'', t = Map.empty\<rparr> =
                 \<lparr>pattern = ''x'', t = ?d\<rparr>"
    by (auto simp add: build_def empty_bucket_def fun_eq_iff)
  from C10_writes_ignore_the_mode
         [OF h1 h2 h3 h4, of "entry ''a'' ''2''" "''x''" "\<lambda>p. True" "\<lambda>p e. True"]
       C10_writes_ignore_the_mode
         [OF h1 h2 h3 h4, of "key_entry ''a''" "''x''" "\<lambda>p. True" "\<lambda>p e. True"]
       h4 free built
  show ?thesis
    by (simp add: entry_def key_entry_def empty_bucket_def)
qed

text \<open>
  C2.  The claim: the backward map's entry for a key is written only by the first
  \<^verbatim>\<open>Set\<close> or \<^verbatim>\<open>Delete\<close> that touches the key in the transaction, and later calls on the
  key leave it unchanged.  The code writes it on every \<^verbatim>\<open>Set\<close> and on every \<^verbatim>\<open>Delete\<close>
  that removes an entry: on a bucket without the key \<open>a\<close>, the first \<^verbatim>\<open>Set\<close> binds \<open>a\<close> to
  nil (absent before the transaction), and a second \<^verbatim>\<open>Set\<close>, or a \<^verbatim>\<open>Delete\<close>, of \<open>a\<close>
  binds it to the entry the first \<^verbatim>\<open>Set\<close> wrote.
\<close>

theorem C2_backward_is_overwritten:
  "backward (rbctx (run_ops [OpSet (entry ''a'' ''1'')]
      (begin_tx MODE_READ_WRITE Map.empty))) ''a'' = Some None \<and>
   backward (rbctx (run_ops [OpSet (entry ''a'' ''1''), OpSet (entry ''a'' ''2'')]
      (begin_tx MODE_READ_WRITE Map.empty))) ''a'' = Some (Some (entry ''a'' ''1'')) \<and>
   backward (rbctx (run_ops [OpSet (entry ''a'' ''1''), OpDelete (key_entry ''a'')]
      (begin_tx MODE_READ_WRITE Map.empty))) ''a'' = Some (Some (entry ''a'' ''1''))"
  by (simp add: Set_def Delete_def insert_bkt_def delete_bkt_def NewTx_def begin_tx_def
      empty_bucket_def open_db_def entry_def key_entry_def)

text \<open>
  C5.  The claim: every \<^verbatim>\<open>Set\<close> applies its insert or replace to every secondary index of
  the bucket, and every \<^verbatim>\<open>Delete\<close> removes the key from every secondary index.  The code
  writes the primary index only: with an index \<open>x\<close> registered that extracts a field from
  every entry, \<^verbatim>\<open>Set\<close> of \<open>(a, 1)\<close> puts the entry into the primary index and leaves the
  tree of \<open>x\<close> empty, and \<^verbatim>\<open>Delete\<close> of \<open>a\<close> removes the entry from the primary index and
  leaves it in the tree of \<open>x\<close>.
\<close>

theorem C5_set_and_delete_skip_the_indexes:
  "map_option indexes (bkt (snd (Set (entry ''a'' ''1'')
      (snd (CreateIndex (\<lambda>p. True) (\<lambda>p e. True) ''x''
         (begin_tx MODE_READ_WRITE Map.empty)))))) =
     Some [''x'' \<mapsto> \<lparr>pattern = ''x'', t = Map.empty\<rparr>] \<and>
   map_option data (bkt (snd (Set (entry ''a'' ''1'')
      (snd (CreateIndex (\<lambda>p. True) (\<lambda>p e. True) ''x''
         (begin_tx MODE_READ_WRITE Map.empty)))))) =
     Some [''a'' \<mapsto> entry ''a'' ''1''] \<and>
   map_option indexes (bkt (snd (Delete (key_entry ''a'')
      (snd (CreateIndex (\<lambda>p. True) (\<lambda>p e. True) ''x''
         (begin_tx MODE_READ_WRITE [''a'' \<mapsto> entry ''a'' ''1''])))))) =
     Some [''x'' \<mapsto> \<lparr>pattern = ''x'', t = [''a'' \<mapsto> entry ''a'' ''1'']\<rparr>] \<and>
   map_option data (bkt (snd (Delete (key_entry ''a'')
      (snd (CreateIndex (\<lambda>p. True) (\<lambda>p e. True) ''x''
         (begin_tx MODE_READ_WRITE [''a'' \<mapsto> entry ''a'' ''1''])))))) =
     Some Map.empty"
  by (auto simp add: Set_def Delete_def insert_bkt_def delete_bkt_def CreateIndex_def
      NewIndex_def build_def NewTx_def begin_tx_def empty_bucket_def open_db_def
      entry_def key_entry_def fun_eq_iff)

section \<open>Rollback\<close>

text \<open>
  C1.  The claim: after any sequence of \<^verbatim>\<open>Set\<close> and \<^verbatim>\<open>Delete\<close> calls in a read-write
  transaction, \<^verbatim>\<open>RollbackTx\<close> leaves the primary index, key by key, as it was before the
  transaction, also when a key is written more than once.  The code does not do that:
  on a bucket without the key \<open>a\<close>, after \<^verbatim>\<open>Set\<close> of \<open>(a, 1)\<close> and \<^verbatim>\<open>Set\<close> of \<open>(a, 2)\<close> the
  backward map binds \<open>a\<close> to the entry \<open>(a, 1)\<close>, and \<^verbatim>\<open>RollbackTx\<close> leaves \<open>(a, 1)\<close> in the
  primary index, which was empty before the transaction.  (After the first \<^verbatim>\<open>Set\<close> alone
  the rollback does empty the primary index.)
\<close>

theorem C1_rollback_after_two_sets:
  "map_option data (bkt (begin_tx MODE_READ_WRITE Map.empty)) = Some Map.empty \<and>
   map_option data (bucket_after (RollbackTx [''a'']
     (run_ops [OpSet (entry ''a'' ''1'')] (begin_tx MODE_READ_WRITE Map.empty)))) =
     Some Map.empty \<and>
   enumerates [''a'']
     (backward (rbctx (run_ops [OpSet (entry ''a'' ''1''), OpSet (entry ''a'' ''2'')]
        (begin_tx MODE_READ_WRITE Map.empty)))) \<and>
   map_option data (bucket_after (RollbackTx [''a'']
     (run_ops [OpSet (entry ''a'' ''1''), OpSet (entry ''a'' ''2'')]
        (begin_tx MODE_READ_WRITE Map.empty)))) = Some [''a'' \<mapsto> entry ''a'' ''1'']"
  by (simp add: Set_def insert_bkt_def NewTx_def begin_tx_def empty_bucket_def open_db_def
      write_locked_def entry_def key_entry_def RollbackTx_def unlock_def Unlock_def
      rollback_step_def delete_bkt_def tree_Delete_def tree_ReplaceOrInsert_def
      bucket_after_def enumerates_def)

text \<open>
  C4.  The claim: \<^verbatim>\<open>RollbackTx\<close> undoes the changes of the index registry that the
  transaction recorded in \<^verbatim>\<open>backwardIndex\<close>; \<^verbatim>\<open>CreateIndex\<close> of \<open>x\<close> followed by rollback
  leaves no index \<open>x\<close>.  The code never reads \<^verbatim>\<open>backwardIndex\<close>: after \<^verbatim>\<open>CreateIndex\<close> of
  \<open>x\<close>, which records \<open>x\<close> with nil, \<^verbatim>\<open>RollbackTx\<close> returns with \<open>x\<close> still registered.
\<close>

theorem C4_created_index_survives_rollback:
  "backwardIndex (rbctx (snd (CreateIndex (\<lambda>p. True) (\<lambda>p e. True) ''x''
      (begin_tx MODE_READ_WRITE Map.empty)))) ''x'' = Some None \<and>
   enumerates [] (backward (rbctx (snd (CreateIndex (\<lambda>p. True) (\<lambda>p e. True) ''x''
      (begin_tx MODE_READ_WRITE Map.empty))))) \<and>
   map_option indexes (bucket_after (RollbackTx []
     (snd (CreateIndex (\<lambda>p. True) (\<lambda>p e. True) ''x''
        (begin_tx MODE_READ_WRITE Map.empty))))) =
     Some [''x'' \<mapsto> \<lparr>pattern = ''x'', t = Map.empty\<rparr>]"
  by (simp add: CreateIndex_def NewIndex_def build_def NewTx_def begin_tx_def
      empty_bucket_def open_db_def write_locked_def RollbackTx_def unlock_def Unlock_def
      bucket_after_def enumerates_def)

section \<open>Releasing the lock\<close>

lemma rollback_step_frame:
  "bktlock (rollback_step key bound b) = bktlock b \<and>
   bkt_open (rollback_step key bound b) = bkt_open b \<and>
   aof (rollback_step key bound b) = aof b \<and>
   aofbuf (rollback_step key bound b) = aofbuf b"
  by (simp add: rollback_step_def insert_bkt_def delete_bkt_def Let_def split: option.splits)

lemma rollback_loop_frame:
  "bktlock (rollback_loop ks bw b) = bktlock b \<and>
   bkt_open (rollback_loop ks bw b) = bkt_open b \<and>
   aof (rollback_loop ks bw b) = aof b \<and>
   aofbuf (rollback_loop ks bw b) = aofbuf b"
  by (induction ks arbitrary: b) (simp_all add: rollback_step_frame)

lemma rollback_releases:
  assumes "bkt tx = Some b"
  shows "mode tx = MODE_READ \<Longrightarrow> 0 < readers (bktlock b) \<Longrightarrow>
           RollbackTx ks tx =
             Return (None, tx\<lparr>bkt := Some ((rollback_loop ks (backward (rbctx tx)) b)
               \<lparr>bktlock := (bktlock b)\<lparr>readers := readers (bktlock b) - 1\<rparr>\<rparr>)\<rparr>)"
    and "mode tx = MODE_READ_WRITE \<Longrightarrow> writer (bktlock b) \<Longrightarrow>
           RollbackTx ks tx =
             Return (None, tx\<lparr>bkt := Some ((rollback_loop ks (backward (rbctx tx)) b)
               \<lparr>bktlock := (bktlock b)\<lparr>writer := False\<rparr>\<rparr>)\<rparr>)"
  using assms
  by (simp_all add: RollbackTx_def unlock_def RUnlock_def Unlock_def rollback_loop_frame)

lemma commit_loop_records:
  "commit_loop ks fw b = b\<lparr>aofbuf := aofbuf b @ commit_records ks fw\<rparr>"
  by (induction ks arbitrary: b)
     (simp_all add: commit_step_def WriteInsertEntry_def WriteDeleteEntry_def key_entry_def
        split: option.splits)

lemma commit_releases:
  assumes "bkt tx = Some b" and "mode tx = MODE_READ_WRITE" and "writer (bktlock b)"
    and "db_open (db tx)"
  shows "CommitTx ks tx =
           Return (None, tx\<lparr>bkt := Some ((WriteAOFBuf (commit_loop ks (forward (rbctx tx)) b))
             \<lparr>bktlock := (bktlock b)\<lparr>writer := False\<rparr>\<rparr>)\<rparr>)"
  using assms
  by (simp add: CommitTx_def unlock_def Unlock_def WriteAOFBuf_def commit_loop_records)

lemma commit_read_only:
  assumes "mode tx = MODE_READ" and "db_open (db tx)"
  shows "CommitTx ks tx = Return (Some ''error: cannot commit read only transaction'', tx)"
  using assms by (simp add: CommitTx_def)

lemma enumerates_empty: "enumerates ks Map.empty \<Longrightarrow> ks = []"
  by (simp add: enumerates_def)




text \<open>
  C7.  The claim: on a read-only transaction with the database open \<^verbatim>\<open>CommitTx\<close> fails
  with the error of an illegal operation and has no effect on the data, and
  \<^verbatim>\<open>RollbackTx\<close>, which ends such a transaction, is a pure release of the lock.  The first
  half holds: the call returns \<^verbatim>\<open>error: cannot commit read only transaction\<close> and the
  transaction unchanged.  The second half holds when the backward map of the transaction
  is empty, that is when no \<^verbatim>\<open>Set\<close> and no \<^verbatim>\<open>Delete\<close> went through it: then \<^verbatim>\<open>RollbackTx\<close>
  returns the transaction with one reader less on the lock and nothing else changed.
  After a write through the read-only transaction, which the code accepts, the rollback
  writes the primary index; see the counterexample below.
\<close>

theorem C7_read_only_commit_and_rollback:
  assumes "mode tx = MODE_READ"
  shows "(db_open (db tx) \<longrightarrow>
            CommitTx ks tx =
              Return (Some ''error: cannot commit read only transaction'', tx)) \<and>
         (bkt tx = Some b \<and> 0 < readers (bktlock b) \<and> backward (rbctx tx) = Map.empty \<and>
          enumerates ks' (backward (rbctx tx)) \<longrightarrow>
            RollbackTx ks' tx =
              Return (None, tx\<lparr>bkt := Some (b\<lparr>bktlock :=
                                   (bktlock b)\<lparr>readers := readers (bktlock b) - 1\<rparr>\<rparr>)\<rparr>))"
proof -
  have c: "db_open (db tx) \<longrightarrow>
            CommitTx ks tx =
              Return (Some ''error: cannot commit read only transaction'', tx)"
    using assms by (simp add: commit_read_only)
  have r: "RollbackTx ks' tx =
              Return (None, tx\<lparr>bkt := Some (b\<lparr>bktlock :=
                                   (bktlock b)\<lparr>readers := readers (bktlock b) - 1\<rparr>\<rparr>)\<rparr>)"
    if h: "bkt tx = Some b" "0 < readers (bktlock b)" "backward (rbctx tx) = Map.empty"
      "enumerates ks' (backward (rbctx tx))"
  proof -
    have "ks' = []" using h(3,4) by (simp add: enumerates_empty)
    then show ?thesis
      using rollback_releases(1)[OF h(1) assms h(2), of ks'] by simp
  qed
  from c r show ?thesis by blast
qed

theorem C7_read_only_commit_and_rollback_witness:
  "CommitTx [] (begin_tx MODE_READ [''a'' \<mapsto> entry ''a'' ''1'']) =
     Return (Some ''error: cannot commit read only transaction'',
             begin_tx MODE_READ [''a'' \<mapsto> entry ''a'' ''1'']) \<and>
   RollbackTx [] (begin_tx MODE_READ [''a'' \<mapsto> entry ''a'' ''1'']) =
     Return (None,
       NewTx open_db
         (Some ((empty_bucket unlocked)\<lparr>data := [''a'' \<mapsto> entry ''a'' ''1'']\<rparr>)) MODE_READ)"
proof -
  let ?d = "[''a'' \<mapsto> entry ''a'' ''1'']"
  let ?tx = "begin_tx MODE_READ ?d"
  let ?b = "(empty_bucket read_locked)\<lparr>data := ?d\<rparr>"
  have m: "mode ?tx = MODE_READ"
    by (simp add: begin_tx_def NewTx_def)
  have h: "db_open (db ?tx)" "bkt ?tx = Some ?b" "0 < readers (bktlock ?b)"
    "backward (rbctx ?tx) = Map.empty" "enumerates [] (backward (rbctx ?tx))"
    by (simp_all add: begin_tx_def NewTx_def open_db_def empty_bucket_def read_locked_def
        enumerates_def)
  from C7_read_only_commit_and_rollback[OF m, of "[]" ?b "[]"] h
  show ?thesis
    by (simp add: begin_tx_def NewTx_def empty_bucket_def read_locked_def unlocked_def)
qed

text \<open>
  The claim of C7 fails on a read-only transaction through which \<^verbatim>\<open>Set\<close> of \<open>(a, 1)\<close> was
  called: the primary index holds \<open>(a, 1)\<close> before \<^verbatim>\<open>RollbackTx\<close> and is empty after it.
\<close>

theorem C7_read_only_commit_and_rollback_counterexample:
  "mode (run_ops [OpSet (entry ''a'' ''1'')] (begin_tx MODE_READ Map.empty)) = MODE_READ \<and>
   map_option data (bkt (run_ops [OpSet (entry ''a'' ''1'')] (begin_tx MODE_READ Map.empty))) =
     Some [''a'' \<mapsto> entry ''a'' ''1''] \<and>
   enumerates [''a'']
     (backward (rbctx (run_ops [OpSet (entry ''a'' ''1'')] (begin_tx MODE_READ Map.empty)))) \<and>
   map_option data (bucket_after (RollbackTx [''a'']
     (run_ops [OpSet (entry ''a'' ''1'')] (begin_tx MODE_READ Map.empty)))) = Some Map.empty"
  by (simp add: Set_def insert_bkt_def delete_bkt_def NewTx_def begin_tx_def empty_bucket_def
      open_db_def read_locked_def entry_def key_entry_def RollbackTx_def unlock_def
      RUnlock_def rollback_step_def tree_Delete_def bucket_after_def enumerates_def)

section \<open>Commit\<close>

lemma last_op_key: "last_op key ops = Some x \<Longrightarrow> op_key x = key"
  by (induction ops) (auto split: option.splits if_splits)

lemma last_op_None_sets: "last_op key ops = None \<Longrightarrow> \<not> sets_key key ops"
  by (induction key ops rule: sets_key.induct) (auto split: option.splits if_splits)

lemma apply_op_Set:
  assumes "db_open (db tx)" and "bkt tx = Some b" and "bkt_open b"
  shows "apply_op (OpSet e) tx =
           tx\<lparr>bkt := Some (b\<lparr>data := (data b)(k e \<mapsto> e)\<rparr>),
              rbctx := (rbctx tx)\<lparr>backward := (backward (rbctx tx))(k e \<mapsto> data b (k e)),
                                  forward := (forward (rbctx tx))(k e \<mapsto> Some e)\<rparr>\<rparr>"
  using assms by (simp add: Set_def insert_bkt_def Let_def)

lemma apply_op_Delete:
  assumes "db_open (db tx)" and "bkt tx = Some b" and "bkt_open b"
  shows "apply_op (OpDelete e) tx =
           (case data b (k e) of
              None \<Rightarrow> tx
            | Some d \<Rightarrow>
                tx\<lparr>bkt := Some (b\<lparr>data := (data b)(k e := None)\<rparr>),
                   rbctx := (rbctx tx)\<lparr>backward := (backward (rbctx tx))(k e \<mapsto> Some d),
                                       forward := (forward (rbctx tx))(k e \<mapsto> None)\<rparr>\<rparr>)"
proof (cases "data b (k e)")
  case None
  then have "b\<lparr>data := (data b)(k e := None)\<rparr> = b"
    by (simp add: fun_upd_idem)
  with None assms show ?thesis
    by (simp add: Delete_def delete_bkt_def Let_def)
next
  case (Some d)
  with assms show ?thesis
    by (simp add: Delete_def delete_bkt_def Let_def)
qed

lemma apply_op_step:
  assumes "db_open (db tx)" and "bkt tx = Some b" and "bkt_open b"
  shows "\<exists>b'. bkt (apply_op x tx) = Some b' \<and> bkt_open b' \<and>
           db (apply_op x tx) = db tx \<and> mode (apply_op x tx) = mode tx \<and>
           bktlock b' = bktlock b \<and> aof b' = aof b \<and> aofbuf b' = aofbuf b \<and>
           data b' key =
             (if op_key x = key then (case x of OpSet e \<Rightarrow> Some e | OpDelete e \<Rightarrow> None)
              else data b key) \<and>
           forward (rbctx (apply_op x tx)) key =
             (if op_key x = key
              then (case x of
                      OpSet e \<Rightarrow> Some (Some e)
                    | OpDelete e \<Rightarrow>
                        if data b key = None then forward (rbctx tx) key else Some None)
              else forward (rbctx tx) key)"
proof (cases x)
  case (OpSet e)
  then show ?thesis
    using assms by (simp add: apply_op_Set[OF assms] del: apply_op.simps)
next
  case (OpDelete e)
  then show ?thesis
    using assms by (auto simp add: apply_op_Delete[OF assms] simp del: apply_op.simps split: option.splits)
qed

lemma run_ops_net:
  assumes "db_open (db tx)" and "bkt tx = Some b" and "bkt_open b"
  shows "\<exists>b'. bkt (run_ops ops tx) = Some b' \<and> bkt_open b' \<and>
           db (run_ops ops tx) = db tx \<and> mode (run_ops ops tx) = mode tx \<and>
           bktlock b' = bktlock b \<and> aof b' = aof b \<and> aofbuf b' = aofbuf b \<and>
           data b' key =
             (case last_op key ops of
                None \<Rightarrow> data b key
              | Some (OpSet e) \<Rightarrow> Some e
              | Some (OpDelete e) \<Rightarrow> None) \<and>
           forward (rbctx (run_ops ops tx)) key =
             (case last_op key ops of
                None \<Rightarrow> forward (rbctx tx) key
              | Some (OpSet e) \<Rightarrow> Some (Some e)
              | Some (OpDelete e) \<Rightarrow>
                  if data b key = None \<and> \<not> sets_key key ops then forward (rbctx tx) key
                  else Some None)"
  using assms
proof (induction ops arbitrary: tx b)
  case Nil
  then show ?case by simp
next
  case (Cons x xs)
  from apply_op_step[OF Cons.prems, of x key]
  obtain b1 where b1: "bkt (apply_op x tx) = Some b1" "bkt_open b1"
    "db (apply_op x tx) = db tx" "mode (apply_op x tx) = mode tx"
    "bktlock b1 = bktlock b" "aof b1 = aof b" "aofbuf b1 = aofbuf b"
    "data b1 key =
       (if op_key x = key then (case x of OpSet e \<Rightarrow> Some e | OpDelete e \<Rightarrow> None)
        else data b key)"
    "forward (rbctx (apply_op x tx)) key =
       (if op_key x = key
        then (case x of
                OpSet e \<Rightarrow> Some (Some e)
              | OpDelete e \<Rightarrow>
                  if data b key = None then forward (rbctx tx) key else Some None)
        else forward (rbctx tx) key)"
    by blast
  have op1: "db_open (db (apply_op x tx))"
    using b1(3) Cons.prems(1) by simp
  from Cons.IH[OF op1 b1(1) b1(2)]
  obtain b' where b': "bkt (run_ops xs (apply_op x tx)) = Some b'" "bkt_open b'"
    "db (run_ops xs (apply_op x tx)) = db (apply_op x tx)"
    "mode (run_ops xs (apply_op x tx)) = mode (apply_op x tx)"
    "bktlock b' = bktlock b1" "aof b' = aof b1" "aofbuf b' = aofbuf b1"
    "data b' key =
       (case last_op key xs of
          None \<Rightarrow> data b1 key
        | Some (OpSet e) \<Rightarrow> Some e
        | Some (OpDelete e) \<Rightarrow> None)"
    "forward (rbctx (run_ops xs (apply_op x tx))) key =
       (case last_op key xs of
          None \<Rightarrow> forward (rbctx (apply_op x tx)) key
        | Some (OpSet e) \<Rightarrow> Some (Some e)
        | Some (OpDelete e) \<Rightarrow>
            if data b1 key = None \<and> \<not> sets_key key xs
            then forward (rbctx (apply_op x tx)) key
            else Some None)"
    by blast
  have d: "data b' key =
             (case last_op key (x # xs) of
                None \<Rightarrow> data b key
              | Some (OpSet e) \<Rightarrow> Some e
              | Some (OpDelete e) \<Rightarrow> None)"
    using b'(8) b1(8) by (auto split: option.splits Op.splits)
  have f: "forward (rbctx (run_ops xs (apply_op x tx))) key =
             (case last_op key (x # xs) of
                None \<Rightarrow> forward (rbctx tx) key
              | Some (OpSet e) \<Rightarrow> Some (Some e)
              | Some (OpDelete e) \<Rightarrow>
                  if data b key = None \<and> \<not> sets_key key (x # xs)
                  then forward (rbctx tx) key
                  else Some None)"
  proof (cases "last_op key xs")
    case None
    then have ns: "\<not> sets_key key xs" by (rule last_op_None_sets)
    show ?thesis
      using None ns b'(9) b1(8,9) by (cases x) (auto split: option.splits Op.splits)
  next
    case (Some y)
    show ?thesis
      using Some b'(9) b1(8,9) by (cases x; cases y) (auto split: option.splits Op.splits)
  qed
  show ?case
    using b' b1 d f by simp
qed

lemma filter_commit_records:
  assumes "distinct ks"
    and "\<And>key' e. fw key' = Some (Some e) \<Longrightarrow> k e = key'"
  shows "filter (\<lambda>r. rec_key r = key) (commit_records ks fw) =
           (if key \<in> set ks
            then (case fw key of
                    None \<Rightarrow> []
                  | Some None \<Rightarrow> [DeleteRec key]
                  | Some (Some e) \<Rightarrow> [InsertRec e])
            else [])"
  using assms(1)
proof (induction ks)
  case Nil
  then show ?case by simp
next
  case (Cons a ks)
  then show ?case
    using assms(2) by (auto split: option.splits)
qed

text \<open>
  C3.  The claim: after any sequence of \<^verbatim>\<open>Set\<close> and \<^verbatim>\<open>Delete\<close> calls in a read-write
  transaction, \<^verbatim>\<open>CommitTx\<close> leaves for each key the effect of the last call on the key:
  the entry of the last \<^verbatim>\<open>Set\<close> in the primary index and one insert record for it in the
  log, or no entry and one delete record when the last call is a \<^verbatim>\<open>Delete\<close>.  That holds
  but for one case, which the guard of \<^verbatim>\<open>Delete\<close> makes: a key that was absent before the
  transaction and that no \<^verbatim>\<open>Set\<close> of the transaction wrote gets no record at all, its
  \<^verbatim>\<open>Delete\<close> calls having found nothing to remove.  As proved, for a transaction that
  starts with an empty forward map on an open database and bucket and holds the write
  lock, for any sequence of calls on any keys and any order \<open>ks\<close> in which the forward map
  is enumerated: \<^verbatim>\<open>CommitTx\<close> returns no error; the primary index holds for each key what
  the last call on the key left (what it held before, when no call names the key); the
  pending buffer is flushed to the log; and the records about the key among those the
  commit emitted are one insert record with the entry of the last \<^verbatim>\<open>Set\<close>, or one delete
  record when the last call is a \<^verbatim>\<open>Delete\<close> and the key was present before the
  transaction or set within it, or none.
\<close>

theorem C3_commit_net_effect:
  assumes "db_open (db tx)" and "bkt tx = Some b" and "bkt_open b"
    and "mode tx = MODE_READ_WRITE" and "writer (bktlock b)"
    and "forward (rbctx tx) = Map.empty"
    and "enumerates ks (forward (rbctx (run_ops ops tx)))"
  shows "\<exists>tx' b' emitted.
           CommitTx ks (run_ops ops tx) = Return (None, tx') \<and> bkt tx' = Some b' \<and>
           data b' key =
             (case last_op key ops of
                None \<Rightarrow> data b key
              | Some (OpSet e) \<Rightarrow> Some e
              | Some (OpDelete e) \<Rightarrow> None) \<and>
           aof b' = aof b @ aofbuf b @ emitted \<and> aofbuf b' = [] \<and>
           filter (\<lambda>r. rec_key r = key) emitted =
             (case last_op key ops of
                None \<Rightarrow> []
              | Some (OpSet e) \<Rightarrow> [InsertRec e]
              | Some (OpDelete e) \<Rightarrow>
                  if data b key = None \<and> \<not> sets_key key ops then [] else [DeleteRec key])"
proof -
  let ?tx1 = "run_ops ops tx"
  let ?fw = "forward (rbctx ?tx1)"
  have fw: "?fw key' =
             (case last_op key' ops of
                None \<Rightarrow> None
              | Some (OpSet e) \<Rightarrow> Some (Some e)
              | Some (OpDelete e) \<Rightarrow>
                  if data b key' = None \<and> \<not> sets_key key' ops then None else Some None)"
    for key'
    using run_ops_net[OF assms(1-3), of ops key'] assms(6)
    by (auto split: option.splits Op.splits)
  have keyed: "k e = key'" if "?fw key' = Some (Some e)" for key' e
  proof -
    from that fw[of key'] have "last_op key' ops = Some (OpSet e)"
      by (auto split: option.splits Op.splits if_splits)
    from last_op_key[OF this] show ?thesis by simp
  qed
  from run_ops_net[OF assms(1-3), of ops key]
  obtain b1 where b1: "bkt ?tx1 = Some b1" "db ?tx1 = db tx" "mode ?tx1 = mode tx"
    "bktlock b1 = bktlock b" "aof b1 = aof b" "aofbuf b1 = aofbuf b"
    "data b1 key =
       (case last_op key ops of
          None \<Rightarrow> data b key
        | Some (OpSet e) \<Rightarrow> Some e
        | Some (OpDelete e) \<Rightarrow> None)"
    by blast
  let ?b' = "(WriteAOFBuf (commit_loop ks ?fw b1))\<lparr>bktlock := (bktlock b1)\<lparr>writer := False\<rparr>\<rparr>"
  have c: "CommitTx ks ?tx1 = Return (None, ?tx1\<lparr>bkt := Some ?b'\<rparr>)"
    using commit_releases[OF b1(1), of ks] b1(2,3,4) assms(1,4,5) by simp
  have dk: "distinct ks" and sk: "set ks = dom ?fw"
    using assms(7) by (simp_all add: enumerates_def)
  have mem: "key \<in> set ks \<longleftrightarrow> ?fw key \<noteq> None"
    using sk by (simp add: dom_def)
  have flt: "filter (\<lambda>r. rec_key r = key) (commit_records ks ?fw) =
             (case last_op key ops of
                None \<Rightarrow> []
              | Some (OpSet e) \<Rightarrow> [InsertRec e]
              | Some (OpDelete e) \<Rightarrow>
                  if data b key = None \<and> \<not> sets_key key ops then [] else [DeleteRec key])"
    using filter_commit_records[where ks = ks and fw = "?fw" and key = key, OF dk keyed]
      mem fw[of key]
    by (auto split: option.splits Op.splits if_splits)
  have "bkt (?tx1\<lparr>bkt := Some ?b'\<rparr>) = Some ?b'"
    by simp
  moreover have "data ?b' key =
             (case last_op key ops of
                None \<Rightarrow> data b key
              | Some (OpSet e) \<Rightarrow> Some e
              | Some (OpDelete e) \<Rightarrow> None)"
    using b1(7) by (simp add: WriteAOFBuf_def commit_loop_records)
  moreover have "aof ?b' = aof b @ aofbuf b @ commit_records ks ?fw" "aofbuf ?b' = []"
    using b1(5,6) by (simp_all add: WriteAOFBuf_def commit_loop_records)
  ultimately show ?thesis
    using c flt by blast
qed

theorem C3_commit_net_effect_witness:
  "\<exists>tx' b' emitted.
     CommitTx [''b'', ''a'']
       (run_ops [OpSet (entry ''a'' ''1''), OpSet (entry ''b'' ''2''), OpDelete (key_entry ''a'')]
          (begin_tx MODE_READ_WRITE Map.empty)) = Return (None, tx') \<and>
     bkt tx' = Some b' \<and> data b' ''a'' = None \<and> aof b' = emitted \<and> aofbuf b' = [] \<and>
     filter (\<lambda>r. rec_key r = ''a'') emitted = [DeleteRec ''a'']"
proof -
  let ?ops = "[OpSet (entry ''a'' ''1''), OpSet (entry ''b'' ''2''), OpDelete (key_entry ''a'')]"
  let ?tx = "begin_tx MODE_READ_WRITE Map.empty"
  let ?b = "empty_bucket write_locked"
  have h: "db_open (db ?tx)" "bkt ?tx = Some ?b" "bkt_open ?b" "mode ?tx = MODE_READ_WRITE"
    "writer (bktlock ?b)" "forward (rbctx ?tx) = Map.empty"
    by (simp_all add: begin_tx_def NewTx_def open_db_def empty_bucket_def write_locked_def)
  have e: "enumerates [''b'', ''a''] (forward (rbctx (run_ops ?ops ?tx)))"
    by (auto simp add: Set_def Delete_def insert_bkt_def delete_bkt_def begin_tx_def NewTx_def
        open_db_def empty_bucket_def entry_def key_entry_def enumerates_def)
  have l: "last_op ''a'' ?ops = Some (OpDelete (key_entry ''a''))" "sets_key ''a'' ?ops"
    by (simp_all add: entry_def key_entry_def)
  from C3_commit_net_effect[OF h e, of "''a''"] l
  show ?thesis
    by (simp add: empty_bucket_def entry_def key_entry_def)
qed

text \<open>
  The claim of C3 fails on a bucket without the key \<open>a\<close> when the transaction calls
  \<^verbatim>\<open>Delete\<close> of \<open>a\<close> and nothing else: the last call on \<open>a\<close> is a \<^verbatim>\<open>Delete\<close>, the key is
  absent after the commit, and the log has no delete record, the forward map being empty.
\<close>

theorem C3_commit_net_effect_counterexample:
  "last_op ''a'' [OpDelete (key_entry ''a'')] = Some (OpDelete (key_entry ''a'')) \<and>
   enumerates []
     (forward (rbctx (run_ops [OpDelete (key_entry ''a'')] (begin_tx MODE_READ_WRITE Map.empty)))) \<and>
   map_option data (bucket_after (CommitTx []
     (run_ops [OpDelete (key_entry ''a'')] (begin_tx MODE_READ_WRITE Map.empty)))) = Some Map.empty \<and>
   map_option aof (bucket_after (CommitTx []
     (run_ops [OpDelete (key_entry ''a'')] (begin_tx MODE_READ_WRITE Map.empty)))) = Some []"
  by (simp add: Delete_def delete_bkt_def NewTx_def begin_tx_def empty_bucket_def open_db_def
      write_locked_def key_entry_def CommitTx_def unlock_def Unlock_def WriteAOFBuf_def
      bucket_after_def enumerates_def)

end
